theory Spec2Isabelle
  imports Complex_Main "HOL-Library.Log_Nat"
begin

section \<open>The live interview hook: data model\<close>

text \<open>
  The repository's core is the React hook \<open>useLiveInterview\<close>. Its state is a handful of
  React state cells (\<open>connectionState\<close>, \<open>error\<close>, \<open>volume\<close>, \<open>aiVolume\<close>,
  \<open>transcript\<close>) and reference cells (\<open>...Ref.current\<close>). The hook talks to the browser
  (audio contexts, media streams, timers, buffer source nodes) and to the remote live
  session. Browser and session objects are modelled as handles (natural numbers, handed
  out by the counter \<open>fresh\<close>), and every call the hook makes on such an object is
  recorded in a field of the state, so that what has been started, stopped, closed or
  cleared can be read off the final state.

  The source holds two versions of the hook. The model follows the later one; the
  earlier one lacks \<open>aiVolume\<close>, the output analyser and the volume timer, and has
  another \<open>onclose\<close>, which is modelled beside the later one.

  A JavaScript number that is a time (seconds of the output clock, a buffer duration, the
  cursor) is modelled by the rational it denotes. Only \<open>Math.max\<close>, which is exact,
  and \<open>+\<close>, which rounds its result to a double (\<open>numberAdd\<close> below), are applied to
  times. Strings are lists of 8-bit characters.
\<close>

datatype ConnectionState = DISCONNECTED | CONNECTING | CONNECTED | ERROR

datatype Role = User | Ai

record TranscriptItem =
  role :: Role
  itemText :: string
  timestamp :: int

text \<open>A thrown or rejected JavaScript value; only its \<open>message\<close> property is read.\<close>

datatype js_error = JsError (message: "string option")

text \<open>
  The fields of \<open>LiveServerMessage\<close> that \<open>onmessage\<close> reads, each after its optional
  chain: \<open>inlineData\<close> is \<open>serverContent?.modelTurn?.parts?.[0]?.inlineData?.data\<close>;
  a transcription object may be present with an undefined \<open>text\<close>.
\<close>

record LiveServerMessage =
  inlineData :: "string option"
  interrupted :: bool
  inputTranscription :: "string option option"
  outputTranscription :: "string option option"
  turnComplete :: bool

record hook =
  connectionState :: ConnectionState
  error :: "string option"
  volume :: rat
  aiVolume :: rat
  transcript :: "TranscriptItem list"
  inputAudioContextRef :: "nat option"
  outputAudioContextRef :: "nat option"
  mediaStreamRef :: "nat option"
  inputSourceRef :: "nat option"
  processorRef :: "nat option"
  outputAnalyzerRef :: "nat option"
  nextStartTimeRef :: rat
  scheduledSourcesRef :: "nat set"
  sessionPromiseRef :: "nat option"
  aiVolumeIntervalRef :: "nat option"
  currentInputRef :: string
  currentOutputRef :: string
  fresh :: nat
  started :: "(nat \<times> rat \<times> rat) list"
  stopped :: "nat set"
  disconnectedNodes :: "nat set"
  closedContexts :: "nat set"
  stoppedStreams :: "nat set"
  clearedIntervals :: "nat set"
  openedSessions :: "nat list"
  closeRequested :: "nat set"

text \<open>
  The fields from \<open>fresh\<close> on are the record of effects: \<open>started\<close> lists the calls
  \<open>source.start(when)\<close> in order, as (node, when, duration of the node's buffer);
  \<open>stopped\<close> holds the nodes on which \<open>stop()\<close> was called; \<open>disconnectedNodes\<close> the
  capture nodes on which \<open>disconnect()\<close> was called; \<open>closedContexts\<close> the audio
  contexts on which \<open>close()\<close> was called; \<open>stoppedStreams\<close> the media streams whose
  tracks were all stopped; \<open>clearedIntervals\<close> the timers given to \<open>clearInterval\<close>;
  \<open>openedSessions\<close> the calls of \<open>ai.live.connect\<close>; \<open>closeRequested\<close> the session
  promises on which the closing continuation was registered.
\<close>

definition initialHook :: "TranscriptItem list \<Rightarrow> hook" where
  "initialHook saved =
     \<lparr>connectionState = DISCONNECTED, error = None, volume = 0, aiVolume = 0,
      transcript = saved,
      inputAudioContextRef = None, outputAudioContextRef = None, mediaStreamRef = None,
      inputSourceRef = None, processorRef = None, outputAnalyzerRef = None,
      nextStartTimeRef = 0, scheduledSourcesRef = {}, sessionPromiseRef = None,
      aiVolumeIntervalRef = None, currentInputRef = [], currentOutputRef = [],
      fresh = 0, started = [], stopped = {}, disconnectedNodes = {}, closedContexts = {},
      stoppedStreams = {}, clearedIntervals = {}, openedSessions = [], closeRequested = {}\<rparr>"

section \<open>JavaScript helpers\<close>

text \<open>\<open>v || d\<close> for a value that is a string or undefined: the empty string is falsy.\<close>

definition orDefault :: "string option \<Rightarrow> string \<Rightarrow> string" where
  "orDefault v d = (case v of None \<Rightarrow> d | Some t \<Rightarrow> if t = [] then d else t)"

text \<open>Truthiness of a value that is a string or undefined.\<close>

definition truthy :: "string option \<Rightarrow> bool" where
  "truthy v = (v \<noteq> None \<and> v \<noteq> Some [])"

text \<open>\<open>acc += v\<close> on a string: an undefined \<open>v\<close> is appended as the word undefined.\<close>

definition appendText :: "string \<Rightarrow> string option \<Rightarrow> string" where
  "appendText acc v = (case v of None \<Rightarrow> acc @ ''undefined'' | Some t \<Rightarrow> acc @ t)"

text \<open>
  \<open>String.prototype.trim\<close>: white space and line terminators are removed at both ends.
  Of these, the ones that exist as 8-bit characters are listed.
\<close>

definition isWhiteSpace :: "char \<Rightarrow> bool" where
  "isWhiteSpace c =
     (c \<in> {CHR 0x09, CHR 0x0A, CHR 0x0B, CHR 0x0C, CHR 0x0D, CHR 0x20, CHR 0xA0})"

definition trim :: "string \<Rightarrow> string" where
  "trim t = rev (dropWhile isWhiteSpace (rev (dropWhile isWhiteSpace t)))"

section \<open>JavaScript numbers\<close>

text \<open>
  \<open>+\<close> on two numbers is the sum rounded to the nearest double, ties to the even
  significand (IEEE 754, binary64). A positive \<open>x\<close> with \<open>2 powi e \<le> x < 2 powi (e + 1)\<close>
  is rounded to the nearest multiple of \<open>2 powi (e - 52)\<close>, so that the result has a
  significand of 53 bits. For two doubles this is the sum the machine computes, unless
  that sum reaches \<open>2 powi 1024\<close>, where the machine gives Infinity: no time of a
  session comes near.
\<close>

text \<open>To the nearest integer, a tie to the even one.\<close>

definition roundEven :: "rat \<Rightarrow> int" where
  "roundEven q =
     (let f = \<lfloor>q\<rfloor>; r = q - of_int f
      in if r < 1 / 2 then f else if 1 / 2 < r then f + 1 else if even f then f else f + 1)"

text \<open>The \<open>e\<close> with \<open>2 powi e \<le> x < 2 powi (e + 1)\<close>, for a positive \<open>x\<close>.\<close>

definition exponent :: "rat \<Rightarrow> int" where
  "exponent x =
     (let (p, q) = quotient_of x; e = bitlen p - bitlen q
      in if 2 powi e \<le> x then e else e - 1)"

text \<open>To the nearest multiple of \<open>2 powi k\<close>.\<close>

definition toGrid :: "int \<Rightarrow> rat \<Rightarrow> rat" where
  "toGrid k x = 2 powi k * of_int (roundEven (x / 2 powi k))"

definition roundDouble :: "rat \<Rightarrow> rat" where
  "roundDouble x =
     (if x = 0 then 0 else sgn x * toGrid (exponent \<bar>x\<bar> - 52) \<bar>x\<bar>)"

definition numberAdd :: "rat \<Rightarrow> rat \<Rightarrow> rat" where
  "numberAdd x y = roundDouble (x + y)"

text \<open>A rational is a double when rounding leaves it as it is.\<close>

definition isDouble :: "rat \<Rightarrow> bool" where
  "isDouble x = (roundDouble x = x)"

text \<open>A multiple of \<open>2 powi k\<close>; a notion of the proofs about rounding only.\<close>

definition onGrid :: "int \<Rightarrow> rat \<Rightarrow> bool" where
  "onGrid k x = (\<exists>n::int. x = 2 powi k * of_int n)"

section \<open>disconnect\<close>

text \<open>
  Both \<open>disconnect\<close> and the interruption branch of \<open>onmessage\<close> run
  \<open>forEach(source => source.stop())\<close>, \<open>clear()\<close> and \<open>nextStartTimeRef.current = 0\<close>.
  Every node in the set has been started before it was added, so \<open>stop()\<close> does not
  throw on it; \<open>disconnect\<close> wraps the call in a \<open>try\<close> all the same.
\<close>

definition stopScheduledSources :: "hook \<Rightarrow> hook" where
  "stopScheduledSources s =
     s\<lparr>stopped := stopped s \<union> scheduledSourcesRef s,
       scheduledSourcesRef := {},
       nextStartTimeRef := 0\<rparr>"

definition clearAiVolumeInterval :: "hook \<Rightarrow> hook" where
  "clearAiVolumeInterval s =
     (case aiVolumeIntervalRef s of
        None \<Rightarrow> s
      | Some t \<Rightarrow> s\<lparr>clearedIntervals := insert t (clearedIntervals s),
                     aiVolumeIntervalRef := None\<rparr>)"

definition releaseProcessor :: "hook \<Rightarrow> hook" where
  "releaseProcessor s =
     (case processorRef s of
        None \<Rightarrow> s
      | Some p \<Rightarrow> s\<lparr>disconnectedNodes := insert p (disconnectedNodes s),
                     processorRef := None\<rparr>)"

definition releaseInputSource :: "hook \<Rightarrow> hook" where
  "releaseInputSource s =
     (case inputSourceRef s of
        None \<Rightarrow> s
      | Some n \<Rightarrow> s\<lparr>disconnectedNodes := insert n (disconnectedNodes s),
                     inputSourceRef := None\<rparr>)"

definition closeInputContext :: "hook \<Rightarrow> hook" where
  "closeInputContext s =
     (case inputAudioContextRef s of
        None \<Rightarrow> s
      | Some c \<Rightarrow> s\<lparr>closedContexts := insert c (closedContexts s),
                     inputAudioContextRef := None\<rparr>)"

definition closeOutputContext :: "hook \<Rightarrow> hook" where
  "closeOutputContext s =
     (case outputAudioContextRef s of
        None \<Rightarrow> s
      | Some c \<Rightarrow> s\<lparr>closedContexts := insert c (closedContexts s),
                     outputAudioContextRef := None\<rparr>)"

definition stopMediaStream :: "hook \<Rightarrow> hook" where
  "stopMediaStream s =
     (case mediaStreamRef s of
        None \<Rightarrow> s
      | Some m \<Rightarrow> s\<lparr>stoppedStreams := insert m (stoppedStreams s),
                     mediaStreamRef := None\<rparr>)"

definition closeSession :: "hook \<Rightarrow> hook" where
  "closeSession s =
     (case sessionPromiseRef s of
        None \<Rightarrow> s
      | Some p \<Rightarrow> s\<lparr>closeRequested := insert p (closeRequested s),
                     sessionPromiseRef := None\<rparr>)"

text \<open>The body of \<open>disconnect\<close>, statement by statement.\<close>

definition disconnect :: "hook \<Rightarrow> hook" where
  "disconnect s =
     (let s1 = clearAiVolumeInterval s;
          s2 = releaseProcessor s1;
          s3 = releaseInputSource s2;
          s4 = closeInputContext s3;
          s5 = stopScheduledSources s4;
          s6 = closeOutputContext s5;
          s7 = stopMediaStream s6;
          s8 = closeSession s7
      in s8\<lparr>connectionState := DISCONNECTED, volume := 0, aiVolume := 0\<rparr>)"

section \<open>connect\<close>

text \<open>
  What the environment answers during one call of \<open>connect\<close>: the value of
  \<open>process.env.API_KEY\<close>, and for each awaited promise either fulfilment (\<open>None\<close>) or
  the rejection value. A context that is not suspended is not resumed, which is the
  \<open>None\<close> case as well. The system instruction built from the configuration is a string
  passed to the session and read by nothing else; it is left out.
\<close>

record connect_env =
  apiKey :: "string option"
  resumeInput :: "js_error option"
  resumeOutput :: "js_error option"
  getUserMedia :: "js_error option"
  liveConnect :: "js_error option"

text \<open>
  The \<open>try\<close> block from the test of the API key on: \<open>Inl\<close> is a throw or a rejected
  await, with the state at that moment; \<open>Inr\<close> is the state when
  \<open>await sessionPromise\<close> has returned.
\<close>

definition connectBody :: "connect_env \<Rightarrow> hook \<Rightarrow> (js_error \<times> hook) + hook" where
  "connectBody env s =
     (if \<not> truthy (apiKey env) then
        Inl (JsError (Some ''API Key not found in environment.''), s)
      else
        let s1 = s\<lparr>fresh := fresh s + 4,
                   inputAudioContextRef := Some (fresh s),
                   outputAudioContextRef := Some (fresh s + 1),
                   outputAnalyzerRef := Some (fresh s + 2),
                   aiVolumeIntervalRef := Some (fresh s + 3)\<rparr>
        in case resumeInput env of
             Some e \<Rightarrow> Inl (e, s1)
           | None \<Rightarrow>
          (case resumeOutput env of
             Some e \<Rightarrow> Inl (e, s1)
           | None \<Rightarrow>
          (case getUserMedia env of
             Some e \<Rightarrow> Inl (e, s1)
           | None \<Rightarrow>
              let s2 = s1\<lparr>fresh := fresh s1 + 2,
                          mediaStreamRef := Some (fresh s1),
                          sessionPromiseRef := Some (fresh s1 + 1),
                          openedSessions := openedSessions s1 @ [fresh s1 + 1]\<rparr>
              in case liveConnect env of
                   Some e \<Rightarrow> Inl (e, s2)
                 | None \<Rightarrow> Inr s2)))"

text \<open>The \<open>catch\<close> block of \<open>connect\<close>.\<close>

definition connectFailed :: "js_error \<Rightarrow> hook \<Rightarrow> hook" where
  "connectFailed err s =
     (let s1 = s\<lparr>error := Some (orDefault (message err) ''Failed to connect to Gemini Live API''),
                 connectionState := ERROR\<rparr>
      in case mediaStreamRef s1 of
           None \<Rightarrow> s1
         | Some m \<Rightarrow> s1\<lparr>stoppedStreams := insert m (stoppedStreams s1)\<rparr>)"

text \<open>
  \<open>connect\<close> is created by \<open>useCallback\<close> with the dependency \<open>connectionState\<close>:
  its guard tests the connection state of the render that created it, the parameter
  \<open>seen\<close>. For a call made from the current render, \<open>seen\<close> is the state's own
  \<open>connectionState\<close>. The awaits of one call are run to their end without another
  handler in between.
\<close>

definition connect :: "ConnectionState \<Rightarrow> connect_env \<Rightarrow> hook \<Rightarrow> hook" where
  "connect seen env s =
     (if seen = CONNECTED \<or> seen = CONNECTING then s
      else
        let s0 = s\<lparr>connectionState := CONNECTING, error := None, transcript := [],
                   currentInputRef := [], currentOutputRef := []\<rparr>
        in case connectBody env s0 of
             Inr s' \<Rightarrow> s'
           | Inl (err, s') \<Rightarrow> connectFailed err s')"

section \<open>Session callbacks\<close>

definition onopen :: "hook \<Rightarrow> hook" where
  "onopen s =
     (let s1 = s\<lparr>connectionState := CONNECTED\<rparr>
      in if inputAudioContextRef s1 = None \<or> mediaStreamRef s1 = None then s1
         else s1\<lparr>fresh := fresh s1 + 2,
                 inputSourceRef := Some (fresh s1),
                 processorRef := Some (fresh s1 + 1)\<rparr>)"

text \<open>
  The \<open>try\<close> block of the audio branch. \<open>decodeAudioData\<close> (with \<open>decode\<close>) lives in
  \<open>utils/audio\<close>, outside the hook; it is a parameter here, giving for a payload either
  the thrown value or the duration of the decoded buffer, the only property of the
  buffer that the hook reads.
\<close>

definition scheduleChunk :: "(string \<Rightarrow> js_error + rat) \<Rightarrow> string \<Rightarrow> hook \<Rightarrow> js_error + hook" where
  "scheduleChunk decodeAudioData base64Audio s =
     (case decodeAudioData base64Audio of
        Inl e \<Rightarrow> Inl e
      | Inr duration \<Rightarrow>
          Inr (s\<lparr>fresh := fresh s + 1,
                 started := started s @ [(fresh s, nextStartTimeRef s, duration)],
                 scheduledSourcesRef := insert (fresh s) (scheduledSourcesRef s),
                 nextStartTimeRef := numberAdd (nextStartTimeRef s) duration\<rparr>))"

text \<open>Step 1 of \<open>onmessage\<close>; \<open>currentTime\<close> is the reading of \<open>ctx.currentTime\<close>.\<close>

definition handleAudio :: "(string \<Rightarrow> js_error + rat) \<Rightarrow> rat \<Rightarrow> LiveServerMessage \<Rightarrow> hook \<Rightarrow> hook" where
  "handleAudio decodeAudioData currentTime m s =
     (case inlineData m of
        None \<Rightarrow> s
      | Some base64Audio \<Rightarrow>
          if base64Audio \<noteq> [] \<and> outputAudioContextRef s \<noteq> None then
            let s1 = s\<lparr>nextStartTimeRef := max (nextStartTimeRef s) currentTime\<rparr>
            in case scheduleChunk decodeAudioData base64Audio s1 of
                 Inl e \<Rightarrow> s1
               | Inr s2 \<Rightarrow> s2
          else s)"

text \<open>Step 2 of \<open>onmessage\<close>.\<close>

definition handleInterruption :: "LiveServerMessage \<Rightarrow> hook \<Rightarrow> hook" where
  "handleInterruption m s = (if interrupted m then stopScheduledSources s else s)"

text \<open>Step 3 of \<open>onmessage\<close>.\<close>

definition handleTranscription :: "LiveServerMessage \<Rightarrow> hook \<Rightarrow> hook" where
  "handleTranscription m s =
     (let s1 = (case inputTranscription m of
                  None \<Rightarrow> s
                | Some t \<Rightarrow> s\<lparr>currentInputRef := appendText (currentInputRef s) t\<rparr>)
      in case outputTranscription m of
           None \<Rightarrow> s1
         | Some t \<Rightarrow> s1\<lparr>currentOutputRef := appendText (currentOutputRef s1) t\<rparr>)"

text \<open>
  Step 4 of \<open>onmessage\<close>. \<open>dateNow k\<close> is what the \<open>k\<close>-th call of \<open>Date.now()\<close> made
  while the new transcript is built returns (counting from 0).
\<close>

definition handleTurnComplete :: "(nat \<Rightarrow> int) \<Rightarrow> LiveServerMessage \<Rightarrow> hook \<Rightarrow> hook" where
  "handleTurnComplete dateNow m s =
     (if turnComplete m then
        let userText = trim (currentInputRef s);
            aiText = trim (currentOutputRef s);
            s1 = (if userText \<noteq> [] \<or> aiText \<noteq> [] then
                    s\<lparr>transcript := transcript s
                        @ (if userText \<noteq> []
                           then [\<lparr>role = User, itemText = userText, timestamp = dateNow 0\<rparr>]
                           else [])
                        @ (if aiText \<noteq> []
                           then [\<lparr>role = Ai, itemText = aiText,
                                  timestamp = dateNow (if userText \<noteq> [] then 1 else 0)\<rparr>]
                           else [])\<rparr>
                  else s)
        in s1\<lparr>currentInputRef := [], currentOutputRef := []\<rparr>
      else s)"

text \<open>
  \<open>onmessage\<close>: the four steps in the order of the source. The only \<open>await\<close> in the
  handler is the one on \<open>decodeAudioData\<close>; one message is handled to its end before
  the next.
\<close>

definition onmessage ::
  "(string \<Rightarrow> js_error + rat) \<Rightarrow> rat \<Rightarrow> (nat \<Rightarrow> int) \<Rightarrow> LiveServerMessage \<Rightarrow> hook \<Rightarrow> hook" where
  "onmessage decodeAudioData currentTime dateNow m s =
     handleTurnComplete dateNow m
       (handleTranscription m
         (handleInterruption m
           (handleAudio decodeAudioData currentTime m s)))"

text \<open>\<open>source.onended\<close>: a unit that has played to its end leaves the set.\<close>

definition onended :: "nat \<Rightarrow> hook \<Rightarrow> hook" where
  "onended source s = s\<lparr>scheduledSourcesRef := scheduledSourcesRef s - {source}\<rparr>"

text \<open>\<open>onclose\<close>, with the functional state update of the current hook.\<close>

definition onclose :: "hook \<Rightarrow> hook" where
  "onclose s =
     (if connectionState s = CONNECTED \<or> connectionState s = CONNECTING
      then s\<lparr>connectionState := DISCONNECTED\<rparr>
      else s)"

text \<open>
  \<open>onclose\<close> of the earlier version of the hook: it tests the \<open>connectionState\<close> of
  the closure, the \<open>seen\<close> of the enclosing call of \<open>connect\<close>, not the current one.
\<close>

definition oncloseCaptured :: "ConnectionState \<Rightarrow> hook \<Rightarrow> hook" where
  "oncloseCaptured seen s =
     (if seen = CONNECTED then s\<lparr>connectionState := DISCONNECTED\<rparr> else s)"

definition onerror :: "js_error \<Rightarrow> hook \<Rightarrow> hook" where
  "onerror err s =
     s\<lparr>error := Some (orDefault (message err) ''Connection error occurred''),
       connectionState := ERROR\<rparr>"

section \<open>Runs of messages and the playback timeline\<close>

text \<open>A message carries the payload \<open>p\<close> when its audio data is the non-empty string \<open>p\<close>.\<close>

definition carries :: "LiveServerMessage \<Rightarrow> string \<Rightarrow> bool" where
  "carries m p = (inlineData m = Some p \<and> p \<noteq> [])"

text \<open>
  A run of inbound messages, each with the reading of the output clock and of
  \<open>Date.now\<close> at its arrival, handled one after the other.
\<close>

fun deliver ::
  "(string \<Rightarrow> js_error + rat) \<Rightarrow> (rat \<times> (nat \<Rightarrow> int) \<times> LiveServerMessage) list \<Rightarrow> hook \<Rightarrow> hook" where
  "deliver decodeAudioData [] s = s"
| "deliver decodeAudioData ((currentTime, dateNow, m) # ms) s =
     deliver decodeAudioData ms (onmessage decodeAudioData currentTime dateNow m s)"

text \<open>
  A list of \<open>start\<close> calls (node, when, duration) is free of overlap when each unit
  starts no earlier than the one before it, and no earlier than the end of the one
  before it, the end being the exact sum of start and duration.
\<close>

fun noOverlap :: "(nat \<times> rat \<times> rat) list \<Rightarrow> bool" where
  "noOverlap ((n, t, d) # (n', t', d') # us) =
     (t \<le> t' \<and> t + d \<le> t' \<and> noOverlap ((n', t', d') # us))"
| "noOverlap us = True"

text \<open>
  The same with the end of a unit taken as the code computes it, the sum of start and
  duration rounded to a double.
\<close>

fun noOverlapRounded :: "(nat \<times> rat \<times> rat) list \<Rightarrow> bool" where
  "noOverlapRounded ((n, t, d) # (n', t', d') # us) =
     (t \<le> t' \<and> numberAdd t d \<le> t' \<and> noOverlapRounded ((n', t', d') # us))"
| "noOverlapRounded us = True"

section \<open>A sample session\<close>

text \<open>
  Concrete inputs on which the theorems below are instantiated: an environment in which
  every step of \<open>connect\<close> succeeds, one in which camera and microphone access is
  denied, one in which the session fails to open, a decoder that knows two payloads (buffers of
  1 s and 0.5 s) and rejects every other, successive readings of \<open>Date.now()\<close>, the
  state after \<open>connect\<close> and the session's \<open>onopen\<close>, a message that ends a turn (with its
  last fragments), and a message that carries an audio payload and, possibly, the
  interrupted flag.
\<close>

definition sampleEnv :: connect_env where
  "sampleEnv = \<lparr>apiKey = Some ''key'', resumeInput = None, resumeOutput = None,
                 getUserMedia = None, liveConnect = None\<rparr>"

definition deniedEnv :: connect_env where
  "deniedEnv = sampleEnv\<lparr>getUserMedia := Some (JsError (Some ''Permission denied''))\<rparr>"


definition sampleDecode :: "string \<Rightarrow> js_error + rat" where
  "sampleDecode p =
     (if p = ''AAAA'' then Inr 1
      else if p = ''BBBB'' then Inr (1 / 2)
      else Inl (JsError (Some ''malformed'')))"

definition sampleDateNow :: "nat \<Rightarrow> int" where
  "sampleDateNow k = 1762160000000 + int k"

definition connectedHook :: hook where
  "connectedHook = onopen (connect DISCONNECTED sampleEnv (initialHook []))"

definition turnEnd :: "string option option \<Rightarrow> string option option \<Rightarrow> LiveServerMessage" where
  "turnEnd u a = \<lparr>inlineData = None, interrupted = False, inputTranscription = u,
                  outputTranscription = a, turnComplete = True\<rparr>"

definition chunk :: "string \<Rightarrow> bool \<Rightarrow> LiveServerMessage" where
  "chunk p i = \<lparr>inlineData = Some p, interrupted = i, inputTranscription = None,
                outputTranscription = None, turnComplete = False\<rparr>"

section \<open>Rounding to a double\<close>

lemma roundEven_of_int: "roundEven (of_int n) = n"
  by (simp add: roundEven_def)

lemma roundEven_mono: "q \<le> q' \<Longrightarrow> roundEven q \<le> roundEven q'"
proof -
  assume le: "q \<le> q'"
  then have fl: "\<lfloor>q\<rfloor> \<le> \<lfloor>q'\<rfloor>" by (rule floor_mono)
  show ?thesis
  proof (cases "\<lfloor>q\<rfloor> = \<lfloor>q'\<rfloor>")
    case True
    with le show ?thesis
      by (auto simp add: roundEven_def Let_def)
  next
    case False
    with fl have "\<lfloor>q\<rfloor> + 1 \<le> \<lfloor>q'\<rfloor>" by simp
    moreover have "roundEven q \<le> \<lfloor>q\<rfloor> + 1" by (simp add: roundEven_def Let_def)
    moreover have "\<lfloor>q'\<rfloor> \<le> roundEven q'" by (simp add: roundEven_def Let_def)
    ultimately show ?thesis by linarith
  qed
qed

lemma roundEven_ge: "of_int a \<le> q \<Longrightarrow> a \<le> roundEven q"
  using roundEven_mono [of "of_int a" q] by (simp add: roundEven_of_int)

lemma roundEven_le: "q \<le> of_int b \<Longrightarrow> roundEven q \<le> b"
  using roundEven_mono [of q "of_int b"] by (simp add: roundEven_of_int)

lemma roundEven_near: "\<bar>of_int (roundEven q) - q\<bar> \<le> 1 / 2"
proof -
  define f where "f = \<lfloor>q\<rfloor>"
  have "of_int f \<le> q" "q < of_int f + 1" unfolding f_def by linarith+
  then show ?thesis
    unfolding roundEven_def Let_def f_def [symmetric]
    by (simp add: abs_if)
qed

lemma pow2_diff: "(2::rat) powi (a - b) = 2 powi a / 2 powi b"
  by (simp add: power_int_diff)

lemma exponent_bracket:
  assumes "0 < x"
  shows "2 powi exponent x \<le> x \<and> x < 2 powi (exponent x + 1)"
proof -
  obtain p q where pq: "quotient_of x = (p, q)" by (cases "quotient_of x")
  then have q: "0 < q" and x: "x = of_int p / of_int q"
    by (simp_all add: quotient_of_denom_pos quotient_of_div)
  with assms have p: "0 < p"
    by (simp add: zero_less_divide_iff)
  let ?bp = "bitlen p" and ?bq = "bitlen q"
  from bitlen_bounds [OF p] have bp: "2 ^ nat (?bp - 1) \<le> p" "p < 2 ^ nat ?bp" by simp_all
  from bitlen_bounds [OF q] have bq: "2 ^ nat (?bq - 1) \<le> q" "q < 2 ^ nat ?bq" by simp_all
  have p1: "1 \<le> ?bp" using p bitlen_eq_zero_iff [of p] bitlen_nonneg [of p] by linarith
  have q1: "1 \<le> ?bq" using q bitlen_eq_zero_iff [of q] bitlen_nonneg [of q] by linarith
  have P: "(2::rat) powi (?bp - 1) \<le> of_int p" "of_int p < (2::rat) powi ?bp"
  proof -
    have "(2::rat) powi (?bp - 1) = of_int (2 ^ nat (?bp - 1))"
      using p1 by (simp add: power_int_nonneg_exp)
    also have "\<dots> \<le> of_int p" using bp(1) by (simp only: of_int_le_iff)
    finally show "(2::rat) powi (?bp - 1) \<le> of_int p" .
    have "(of_int p :: rat) < of_int (2 ^ nat ?bp)" using bp(2) by (simp only: of_int_less_iff)
    also have "\<dots> = 2 powi ?bp" using p1 by (simp add: power_int_nonneg_exp)
    finally show "of_int p < (2::rat) powi ?bp" .
  qed
  have Q: "(2::rat) powi (?bq - 1) \<le> of_int q" "of_int q < (2::rat) powi ?bq"
  proof -
    have "(2::rat) powi (?bq - 1) = of_int (2 ^ nat (?bq - 1))"
      using q1 by (simp add: power_int_nonneg_exp)
    also have "\<dots> \<le> of_int q" using bq(1) by (simp only: of_int_le_iff)
    finally show "(2::rat) powi (?bq - 1) \<le> of_int q" .
    have "(of_int q :: rat) < of_int (2 ^ nat ?bq)" using bq(2) by (simp only: of_int_less_iff)
    also have "\<dots> = 2 powi ?bq" using q1 by (simp add: power_int_nonneg_exp)
    finally show "of_int q < (2::rat) powi ?bq" .
  qed
  have pos: "(0::rat) < 2 powi k" for k by simp
  have lo: "2 powi (?bp - ?bq - 1) < x"
  proof -
    have "?bp - ?bq - 1 = ?bp - 1 - ?bq" by simp
    then have "(2::rat) powi (?bp - ?bq - 1) = 2 powi (?bp - 1) / 2 powi ?bq"
      by (simp only: pow2_diff)
    also have "\<dots> < of_int p / of_int q"
      using P(1) Q(2) q pos by (intro frac_less2) simp_all
    finally show ?thesis by (simp add: x)
  qed
  have hi: "x < 2 powi (?bp - ?bq + 1)"
  proof -
    have "of_int p / of_int q < (2::rat) powi ?bp / 2 powi (?bq - 1)"
      using P(2) Q(1) p pos by (intro frac_less) simp_all
    also have "\<dots> = 2 powi (?bp - (?bq - 1))"
      by (rule pow2_diff [symmetric])
    also have "?bp - (?bq - 1) = ?bp - ?bq + 1" by simp
    finally show ?thesis by (simp add: x)
  qed
  show ?thesis
    using lo hi pq by (auto simp add: exponent_def Let_def)
qed

lemma pow2_le: "a \<le> b \<Longrightarrow> (2::rat) powi a \<le> 2 powi b"
  by (rule power_int_increasing) simp_all

lemma pow2_less: "a < b \<Longrightarrow> (2::rat) powi a < 2 powi b"
  by (rule power_int_strict_increasing) simp_all

lemma pow2_less_D: "(2::rat) powi a < 2 powi b \<Longrightarrow> a < b"
  using pow2_le [of b a] by (cases "a < b") auto

lemma exponent_unique:
  assumes "0 < x" "2 powi e \<le> x" "x < 2 powi (e + 1)"
  shows "exponent x = e"
proof (rule antisym)
  from exponent_bracket [OF assms(1)]
  have b: "2 powi exponent x \<le> x" "x < 2 powi (exponent x + 1)" by simp_all
  from b(1) assms(3) have "(2::rat) powi exponent x < 2 powi (e + 1)" by simp
  then have "exponent x < e + 1" by (rule pow2_less_D)
  then show "exponent x \<le> e" by simp
  from assms(2) b(2) have "(2::rat) powi e < 2 powi (exponent x + 1)" by simp
  then have "e < exponent x + 1" by (rule pow2_less_D)
  then show "e \<le> exponent x" by simp
qed

lemma exponent_mono:
  assumes "0 < x" "x \<le> y"
  shows "exponent x \<le> exponent y"
proof -
  from assms have y: "0 < y" by simp
  from exponent_bracket [OF assms(1)] exponent_bracket [OF y] assms(2)
  have "(2::rat) powi exponent x < 2 powi (exponent y + 1)" by simp
  then have "exponent x < exponent y + 1" by (rule pow2_less_D)
  then show ?thesis by simp
qed

lemma toGrid_mono: "x \<le> y \<Longrightarrow> toGrid k x \<le> toGrid k y"
  unfolding toGrid_def
  by (intro mult_left_mono) (simp_all add: roundEven_mono divide_right_mono)

lemma toGrid_onGrid: "onGrid k x \<Longrightarrow> toGrid k x = x"
  by (auto simp add: onGrid_def toGrid_def roundEven_of_int)

lemma onGrid_toGrid: "onGrid k (toGrid k x)"
  by (auto simp add: onGrid_def toGrid_def)

lemma onGrid_finer: "k \<le> k' \<Longrightarrow> onGrid k' x \<Longrightarrow> onGrid k x"
proof -
  assume le: "k \<le> k'" and "onGrid k' x"
  then obtain n :: int where x: "x = 2 powi k' * of_int n" by (auto simp add: onGrid_def)
  have "(2::rat) powi k' = 2 powi k * 2 powi (k' - k)"
    by (simp add: power_int_add [symmetric])
  also have "(2::rat) powi (k' - k) = of_int (2 ^ nat (k' - k))"
    using le by (simp add: power_int_nonneg_exp)
  finally have "x = 2 powi k * of_int (2 ^ nat (k' - k) * n)"
    by (simp add: x)
  then show ?thesis unfolding onGrid_def by blast
qed

lemma onGrid_pow2: "k \<le> e \<Longrightarrow> onGrid k (2 powi e)"
proof -
  assume "k \<le> e"
  moreover have "onGrid e (2 powi e)"
    unfolding onGrid_def by (rule exI [of _ 1]) simp
  ultimately show ?thesis by (rule onGrid_finer)
qed

lemma roundDouble_pos: "0 < x \<Longrightarrow> roundDouble x = toGrid (exponent x - 52) x"
  by (simp add: roundDouble_def)

lemma roundDouble_bounds:
  assumes "0 < x"
  shows "2 powi exponent x \<le> roundDouble x" "roundDouble x \<le> 2 powi (exponent x + 1)"
proof -
  let ?e = "exponent x" and ?k = "exponent x - 52"
  from exponent_bracket [OF assms] have b: "2 powi ?e \<le> x" "x \<le> 2 powi (?e + 1)" by simp_all
  have "toGrid ?k (2 powi ?e) \<le> toGrid ?k x" using b(1) by (rule toGrid_mono)
  then show "2 powi ?e \<le> roundDouble x"
    using assms by (simp add: roundDouble_pos toGrid_onGrid onGrid_pow2)
  have "toGrid ?k x \<le> toGrid ?k (2 powi (?e + 1))" using b(2) by (rule toGrid_mono)
  then show "roundDouble x \<le> 2 powi (?e + 1)"
    using assms by (simp add: roundDouble_pos toGrid_onGrid onGrid_pow2)
qed

lemma roundDouble_pos_pos: "0 < x \<Longrightarrow> 0 < roundDouble x"
proof -
  assume "0 < x"
  then have "2 powi exponent x \<le> roundDouble x" by (rule roundDouble_bounds(1))
  moreover have "(0::rat) < 2 powi exponent x" by simp
  ultimately show ?thesis by (rule less_le_trans [rotated])
qed

lemma roundDouble_mono_pos:
  assumes "0 < x" "x \<le> y"
  shows "roundDouble x \<le> roundDouble y"
proof -
  from assms have y: "0 < y" by simp
  have e: "exponent x \<le> exponent y" using assms by (rule exponent_mono)
  show ?thesis
  proof (cases "exponent x = exponent y")
    case True
    with assms y show ?thesis by (simp add: roundDouble_pos toGrid_mono)
  next
    case False
    with e have "exponent x + 1 \<le> exponent y" by simp
    then have "(2::rat) powi (exponent x + 1) \<le> 2 powi exponent y" by (rule pow2_le)
    with roundDouble_bounds(2) [OF assms(1)] roundDouble_bounds(1) [OF y]
    show ?thesis by simp
  qed
qed

lemma roundDouble_idem_pos:
  assumes "0 < x"
  shows "roundDouble (roundDouble x) = roundDouble x"
proof -
  let ?r = "roundDouble x" and ?e = "exponent x"
  have r: "0 < ?r" using assms by (rule roundDouble_pos_pos)
  have g: "onGrid (?e - 52) ?r"
    using assms by (simp add: roundDouble_pos onGrid_toGrid)
  have "onGrid (exponent ?r - 52) ?r"
  proof (cases "?r < 2 powi (?e + 1)")
    case True
    with roundDouble_bounds(1) [OF assms] r have "exponent ?r = ?e"
      by (intro exponent_unique) simp_all
    with g show ?thesis by simp
  next
    case False
    with roundDouble_bounds(2) [OF assms] have eq: "?r = 2 powi (?e + 1)" by simp
    have "exponent ?r = ?e + 1"
      using r by (intro exponent_unique) (simp_all add: eq pow2_less)
    then show ?thesis
      by (simp add: eq onGrid_pow2)
  qed
  with r show ?thesis
    by (simp add: roundDouble_pos [of ?r] toGrid_onGrid)
qed

lemma roundDouble_0 [simp]: "roundDouble 0 = 0"
  by (simp add: roundDouble_def)

lemma roundDouble_nonneg: "0 \<le> x \<Longrightarrow> 0 \<le> roundDouble x"
  using roundDouble_pos_pos [of x] by (cases "x = 0") simp_all

lemma roundDouble_mono_nonneg:
  assumes "0 \<le> x" "x \<le> y"
  shows "roundDouble x \<le> roundDouble y"
proof (cases "x = 0")
  case True
  with assms show ?thesis by (simp add: roundDouble_nonneg)
next
  case False
  with assms have "0 < x" by simp
  then show ?thesis using assms(2) by (rule roundDouble_mono_pos)
qed

lemma roundDouble_idem_nonneg: "0 \<le> x \<Longrightarrow> roundDouble (roundDouble x) = roundDouble x"
  using roundDouble_idem_pos [of x] by (cases "x = 0") simp_all

lemma isDouble_max: "isDouble x \<Longrightarrow> isDouble y \<Longrightarrow> isDouble (max x y)"
  by (simp add: max_def)

lemma isDouble_numberAdd: "0 \<le> x + y \<Longrightarrow> isDouble (numberAdd x y)"
  by (simp add: isDouble_def numberAdd_def roundDouble_idem_nonneg)

lemma numberAdd_nonneg: "0 \<le> x + y \<Longrightarrow> 0 \<le> numberAdd x y"
  by (simp add: numberAdd_def roundDouble_nonneg)

lemma numberAdd_ge:
  assumes "isDouble x" "0 \<le> x" "0 \<le> d"
  shows "x \<le> numberAdd x d"
proof -
  from assms(2,3) have "roundDouble x \<le> roundDouble (x + d)"
    by (intro roundDouble_mono_nonneg) simp_all
  with assms(1) show ?thesis by (simp add: isDouble_def numberAdd_def)
qed

lemma numberAdd_exact: "isDouble (x + d) \<Longrightarrow> numberAdd x d = x + d"
  by (simp add: isDouble_def numberAdd_def)

lemma roundDouble_near:
  assumes "0 < x"
  shows "\<bar>roundDouble x - x\<bar> \<le> x / 2 ^ 53"
proof -
  let ?u = "(2::rat) powi (exponent x - 52)"
  have u: "0 < ?u" by simp
  have "\<bar>of_int (roundEven (x / ?u)) - x / ?u\<bar> \<le> 1 / 2" by (rule roundEven_near)
  then have "?u * \<bar>of_int (roundEven (x / ?u)) - x / ?u\<bar> \<le> ?u * (1 / 2)"
    using u by (intro mult_left_mono) simp_all
  also have "?u * \<bar>of_int (roundEven (x / ?u)) - x / ?u\<bar> = \<bar>roundDouble x - x\<bar>"
  proof -
    have "\<bar>roundDouble x - x\<bar> = \<bar>?u * (of_int (roundEven (x / ?u)) - x / ?u)\<bar>"
      using assms by (simp add: roundDouble_pos toGrid_def right_diff_distrib)
    also have "\<dots> = ?u * \<bar>of_int (roundEven (x / ?u)) - x / ?u\<bar>"
      using u by (simp add: abs_mult)
    finally show ?thesis by simp
  qed
  also have "?u * (1 / 2) = 2 powi exponent x / 2 ^ 53"
  proof -
    have "?u = 2 powi exponent x / 2 powi 52" by (rule pow2_diff)
    then show ?thesis by simp
  qed
  also have "\<dots> \<le> x / 2 ^ 53"
    using exponent_bracket [OF assms] by (simp add: divide_right_mono)
  finally show ?thesis .
qed

text \<open>The sums of the sample session.\<close>

lemma sample_sums:
  "numberAdd 5 1 = 6"
  "numberAdd 6 (1 / 2) = 13 / 2"
  "numberAdd 6 1 = 7"
  by code_simp+

section \<open>disconnect as one update\<close>

lemma clearAiVolumeInterval_eq:
  "clearAiVolumeInterval s =
     s\<lparr>clearedIntervals := clearedIntervals s \<union> set_option (aiVolumeIntervalRef s),
       aiVolumeIntervalRef := None\<rparr>"
  by (cases s) (simp add: clearAiVolumeInterval_def split: option.splits)

lemma releaseProcessor_eq:
  "releaseProcessor s =
     s\<lparr>disconnectedNodes := disconnectedNodes s \<union> set_option (processorRef s),
       processorRef := None\<rparr>"
  by (cases s) (simp add: releaseProcessor_def split: option.splits)

lemma releaseInputSource_eq:
  "releaseInputSource s =
     s\<lparr>disconnectedNodes := disconnectedNodes s \<union> set_option (inputSourceRef s),
       inputSourceRef := None\<rparr>"
  by (cases s) (simp add: releaseInputSource_def split: option.splits)

lemma closeInputContext_eq:
  "closeInputContext s =
     s\<lparr>closedContexts := closedContexts s \<union> set_option (inputAudioContextRef s),
       inputAudioContextRef := None\<rparr>"
  by (cases s) (simp add: closeInputContext_def split: option.splits)

lemma closeOutputContext_eq:
  "closeOutputContext s =
     s\<lparr>closedContexts := closedContexts s \<union> set_option (outputAudioContextRef s),
       outputAudioContextRef := None\<rparr>"
  by (cases s) (simp add: closeOutputContext_def split: option.splits)

lemma stopMediaStream_eq:
  "stopMediaStream s =
     s\<lparr>stoppedStreams := stoppedStreams s \<union> set_option (mediaStreamRef s),
       mediaStreamRef := None\<rparr>"
  by (cases s) (simp add: stopMediaStream_def split: option.splits)

lemma closeSession_eq:
  "closeSession s =
     s\<lparr>closeRequested := closeRequested s \<union> set_option (sessionPromiseRef s),
       sessionPromiseRef := None\<rparr>"
  by (cases s) (simp add: closeSession_def split: option.splits)

lemma disconnect_eq:
  "disconnect s =
     s\<lparr>connectionState := DISCONNECTED, volume := 0, aiVolume := 0,
       inputAudioContextRef := None, outputAudioContextRef := None, mediaStreamRef := None,
       inputSourceRef := None, processorRef := None,
       nextStartTimeRef := 0, scheduledSourcesRef := {}, sessionPromiseRef := None,
       aiVolumeIntervalRef := None,
       stopped := stopped s \<union> scheduledSourcesRef s,
       disconnectedNodes := disconnectedNodes s \<union> set_option (processorRef s) \<union> set_option (inputSourceRef s),
       closedContexts := closedContexts s \<union> set_option (inputAudioContextRef s) \<union> set_option (outputAudioContextRef s),
       stoppedStreams := stoppedStreams s \<union> set_option (mediaStreamRef s),
       clearedIntervals := clearedIntervals s \<union> set_option (aiVolumeIntervalRef s),
       closeRequested := closeRequested s \<union> set_option (sessionPromiseRef s)\<rparr>"
  by (simp add: disconnect_def Let_def clearAiVolumeInterval_eq releaseProcessor_eq
      releaseInputSource_eq closeInputContext_eq stopScheduledSources_def closeOutputContext_eq
      stopMediaStream_eq closeSession_eq)

section \<open>The sample session, evaluated\<close>

lemma connectedHook_eq:
  "connectedHook =
     (initialHook [])\<lparr>connectionState := CONNECTED, inputAudioContextRef := Some 0,
       outputAudioContextRef := Some 1, outputAnalyzerRef := Some 2, aiVolumeIntervalRef := Some 3,
       mediaStreamRef := Some 4, sessionPromiseRef := Some 5, openedSessions := [5],
       inputSourceRef := Some 6, processorRef := Some 7, fresh := 8\<rparr>"
  by (simp add: connectedHook_def onopen_def connect_def connectBody_def sampleEnv_def
      initialHook_def truthy_def Let_def)

lemma sampleDecode_nonneg: "\<forall>p d. sampleDecode p = Inr d \<longrightarrow> 0 \<le> d"
  by (auto simp add: sampleDecode_def split: if_splits)

lemma sample_run:
  "deliver sampleDecode [(5, dn, chunk ''AAAA'' False), (11 / 2, dn', chunk ''BBBB'' False)] connectedHook
     = connectedHook\<lparr>fresh := 10, started := [(8, 5, 1), (9, 6, 1 / 2)],
         scheduledSourcesRef := {8, 9}, nextStartTimeRef := 13 / 2\<rparr>"
  by (simp add: connectedHook_eq initialHook_def onmessage_def handleAudio_def scheduleChunk_def
      handleInterruption_def handleTranscription_def handleTurnComplete_def chunk_def
      sampleDecode_def Let_def insert_commute sample_sums)

lemmas sample_defs = connectedHook_eq initialHook_def onmessage_def handleAudio_def
  scheduleChunk_def handleInterruption_def stopScheduledSources_def handleTranscription_def
  handleTurnComplete_def chunk_def sampleDecode_def Let_def

section \<open>Connection state under session close\<close>

text \<open>
  C4. A close event that arrives when the state is Disconnected, in particular right
  after \<open>disconnect()\<close>, leaves it Disconnected; if the close event changes the state at
  all, the state was Connecting or Connected when it arrived and is Disconnected after.
  The earlier \<open>onclose\<close> keeps Disconnected as well, and with the state its \<open>connect\<close>
  saw (neither Connected nor Connecting, or \<open>connect\<close> would have returned) it changes
  nothing.
\<close>

theorem onclose_keeps_disconnected:
  "connectionState (onclose (disconnect s)) = DISCONNECTED
   \<and> (connectionState s = DISCONNECTED \<longrightarrow> onclose s = s)
   \<and> (connectionState (onclose s) \<noteq> connectionState s \<longrightarrow>
        (connectionState s = CONNECTING \<or> connectionState s = CONNECTED)
        \<and> connectionState (onclose s) = DISCONNECTED)
   \<and> (connectionState s = DISCONNECTED \<longrightarrow>
        connectionState (oncloseCaptured seen s) = DISCONNECTED)
   \<and> (seen \<noteq> CONNECTED \<and> seen \<noteq> CONNECTING \<longrightarrow> oncloseCaptured seen s = s)"
  by (simp add: onclose_def oncloseCaptured_def disconnect_eq)

theorem onclose_keeps_disconnected_witness:
  "connectionState (disconnect connectedHook) = DISCONNECTED
   \<and> onclose (disconnect connectedHook) = disconnect connectedHook
   \<and> oncloseCaptured DISCONNECTED (disconnect connectedHook) = disconnect connectedHook
   \<and> connectionState connectedHook = CONNECTED
   \<and> connectionState (onclose connectedHook) = DISCONNECTED"
proof -
  have c: "connectionState connectedHook = CONNECTED"
    "connectionState (onclose connectedHook) \<noteq> connectionState connectedHook"
    by (simp_all add: connectedHook_eq onclose_def)
  have d: "connectionState (disconnect connectedHook) = DISCONNECTED"
    by (simp add: disconnect_eq)
  from onclose_keeps_disconnected [of "disconnect connectedHook" DISCONNECTED]
    onclose_keeps_disconnected [of connectedHook DISCONNECTED] c d
  show ?thesis by simp
qed

section \<open>disconnect from any state\<close>

text \<open>
  C6. \<open>disconnect\<close> is a total function of the state: no statement of its body throws
  (the one call that might, \<open>stop()\<close>, sits in a \<open>try\<close>). From every state it
  leaves the connection state Disconnected, the set of live units empty, the next-start
  cursor at 0 and both volumes at 0; a second call changes nothing, and neither does a
  call in the initial state, before any \<open>connect\<close>.
\<close>

theorem disconnect_idempotent:
  "connectionState (disconnect s) = DISCONNECTED
   \<and> scheduledSourcesRef (disconnect s) = {}
   \<and> nextStartTimeRef (disconnect s) = 0
   \<and> volume (disconnect s) = 0
   \<and> aiVolume (disconnect s) = 0
   \<and> disconnect (disconnect s) = disconnect s
   \<and> disconnect (initialHook saved) = initialHook saved"
  by (simp add: disconnect_eq initialHook_def)

section \<open>Who writes the error field\<close>

lemma handle_text_frame:
  "error (handleTranscription m s) = error s"
  "error (handleTurnComplete dn m s) = error s"
  "error (handleInterruption m s) = error s"
  "error (handleAudio dec t m s) = error s"
  by (simp_all add: handleTranscription_def handleTurnComplete_def handleInterruption_def
      handleAudio_def scheduleChunk_def stopScheduledSources_def Let_def split: option.splits sum.splits)

lemma error_connectBody:
  "connectBody env s = Inr s' \<Longrightarrow> error s' = error s"
  "connectBody env s = Inl (e, s') \<Longrightarrow> error s' = error s"
  by (auto simp add: connectBody_def Let_def split: option.splits if_splits)

lemma connectBody_success:
  "(\<exists>s'. connectBody env s = Inr s') \<longleftrightarrow>
     (truthy (apiKey env) \<and> resumeInput env = None \<and> resumeOutput env = None
      \<and> getUserMedia env = None \<and> liveConnect env = None)"
  by (auto simp add: connectBody_def Let_def split: option.splits if_splits)

lemma error_connectFailed: "error (connectFailed e s) \<noteq> None"
  by (simp add: connectFailed_def Let_def split: option.splits)

text \<open>
  C10. \<open>disconnect\<close> leaves the error field as it is, and so do \<open>onmessage\<close>,
  \<open>onopen\<close>, \<open>onclose\<close> and \<open>onended\<close>; \<open>onerror\<close> stores a message. A call
  of \<open>connect\<close> that passes its guard ends with the error field null exactly when
  every step of it succeeds (it sets the field to null first, and to a message in its
  \<open>catch\<close> block).
\<close>

theorem error_kept_by_disconnect:
  "error (disconnect s) = error s
   \<and> error (onmessage dec t dn m s) = error s
   \<and> error (onopen s) = error s
   \<and> error (onclose s) = error s
   \<and> error (onended n s) = error s
   \<and> error (onerror e s) \<noteq> None
   \<and> (seen \<noteq> CONNECTED \<and> seen \<noteq> CONNECTING \<longrightarrow>
        (error (connect seen env s) = None) =
        (truthy (apiKey env) \<and> resumeInput env = None \<and> resumeOutput env = None
         \<and> getUserMedia env = None \<and> liveConnect env = None))"
proof -
  have a: "error (disconnect s) = error s" by (simp add: disconnect_eq)
  have b: "error (onmessage dec t dn m s) = error s"
    by (simp add: onmessage_def handle_text_frame)
  have c: "error (onopen s) = error s" "error (onclose s) = error s"
    "error (onended n s) = error s" "error (onerror e s) \<noteq> None"
    by (simp_all add: onopen_def onclose_def onended_def onerror_def Let_def)
  have d: "(error (connect seen env s) = None) =
        (truthy (apiKey env) \<and> resumeInput env = None \<and> resumeOutput env = None
         \<and> getUserMedia env = None \<and> liveConnect env = None)"
    if g: "seen \<noteq> CONNECTED" "seen \<noteq> CONNECTING"
  proof (cases "connectBody env (s\<lparr>connectionState := CONNECTING, error := None, transcript := [],
                   currentInputRef := [], currentOutputRef := []\<rparr>)")
    case (Inl p)
    obtain e' s' where p: "p = (e', s')" by (cases p)
    from Inl p connectBody_success [of env] have "\<not> (truthy (apiKey env) \<and> resumeInput env = None \<and> resumeOutput env = None
         \<and> getUserMedia env = None \<and> liveConnect env = None)"
      by (metis Inl_Inr_False)
    with Inl p g show ?thesis
      by (simp add: connect_def Let_def error_connectFailed)
  next
    case (Inr s')
    from Inr connectBody_success [of env] have "(truthy (apiKey env) \<and> resumeInput env = None \<and> resumeOutput env = None
         \<and> getUserMedia env = None \<and> liveConnect env = None)"
      by blast
    with Inr g error_connectBody(1) [OF Inr] show ?thesis
      by (simp add: connect_def Let_def)
  qed
  from a b c d show ?thesis by blast
qed

theorem error_kept_by_disconnect_witness:
  "error (connect DISCONNECTED deniedEnv (initialHook [])) = Some ''Permission denied''
   \<and> error (disconnect (connect DISCONNECTED deniedEnv (initialHook [])))
       = Some ''Permission denied''
   \<and> error (connect ERROR sampleEnv (connect DISCONNECTED deniedEnv (initialHook []))) = None"
proof -
  have e: "error (connect DISCONNECTED deniedEnv (initialHook [])) = Some ''Permission denied''"
    by (simp add: connect_def connectBody_def connectFailed_def deniedEnv_def sampleEnv_def
        initialHook_def orDefault_def truthy_def Let_def)
  have ok: "truthy (apiKey sampleEnv)" "resumeInput sampleEnv = None" "resumeOutput sampleEnv = None"
    "getUserMedia sampleEnv = None" "liveConnect sampleEnv = None"
    by (simp_all add: sampleEnv_def truthy_def)
  from error_kept_by_disconnect
    [where s = "connect DISCONNECTED deniedEnv (initialHook [])" and seen = ERROR
       and env = sampleEnv] e ok
  show ?thesis by simp
qed

section \<open>The steps of onmessage\<close>

lemma handleAudio_skip:
  "(\<forall>p. \<not> carries m p) \<or> outputAudioContextRef s = None \<Longrightarrow>
   handleAudio dec t m s = s"
  by (auto simp add: handleAudio_def carries_def split: option.splits)

lemma handleAudio_fail:
  "carries m p \<Longrightarrow> outputAudioContextRef s \<noteq> None \<Longrightarrow>
   dec p = Inl e \<Longrightarrow>
   handleAudio dec t m s = s\<lparr>nextStartTimeRef := max (nextStartTimeRef s) t\<rparr>"
  by (auto simp add: handleAudio_def carries_def scheduleChunk_def Let_def)

lemma handleAudio_ok:
  "carries m p \<Longrightarrow> outputAudioContextRef s \<noteq> None \<Longrightarrow>
   dec p = Inr d \<Longrightarrow>
   handleAudio dec t m s =
     s\<lparr>nextStartTimeRef := numberAdd (max (nextStartTimeRef s) t) d,
       fresh := fresh s + 1,
       started := started s @ [(fresh s, max (nextStartTimeRef s) t, d)],
       scheduledSourcesRef := insert (fresh s) (scheduledSourcesRef s)\<rparr>"
  by (auto simp add: handleAudio_def carries_def scheduleChunk_def Let_def)

lemma handleTranscription_frame:
  "started (handleTranscription m s) = started s"
  "nextStartTimeRef (handleTranscription m s) = nextStartTimeRef s"
  "scheduledSourcesRef (handleTranscription m s) = scheduledSourcesRef s"
  "stopped (handleTranscription m s) = stopped s"
  "fresh (handleTranscription m s) = fresh s"
  "outputAudioContextRef (handleTranscription m s) = outputAudioContextRef s"
  "connectionState (handleTranscription m s) = connectionState s"
  "sessionPromiseRef (handleTranscription m s) = sessionPromiseRef s"
  "closeRequested (handleTranscription m s) = closeRequested s"
  "transcript (handleTranscription m s) = transcript s"
  by (simp_all add: handleTranscription_def Let_def split: option.splits)

lemma handleTurnComplete_frame:
  "started (handleTurnComplete dn m s) = started s"
  "nextStartTimeRef (handleTurnComplete dn m s) = nextStartTimeRef s"
  "scheduledSourcesRef (handleTurnComplete dn m s) = scheduledSourcesRef s"
  "stopped (handleTurnComplete dn m s) = stopped s"
  "fresh (handleTurnComplete dn m s) = fresh s"
  "outputAudioContextRef (handleTurnComplete dn m s) = outputAudioContextRef s"
  "connectionState (handleTurnComplete dn m s) = connectionState s"
  "sessionPromiseRef (handleTurnComplete dn m s) = sessionPromiseRef s"
  "closeRequested (handleTurnComplete dn m s) = closeRequested s"
  by (simp_all add: handleTurnComplete_def Let_def)

lemma handleInterruption_frame:
  "started (handleInterruption m s) = started s"
  "fresh (handleInterruption m s) = fresh s"
  "outputAudioContextRef (handleInterruption m s) = outputAudioContextRef s"
  "connectionState (handleInterruption m s) = connectionState s"
  "sessionPromiseRef (handleInterruption m s) = sessionPromiseRef s"
  "closeRequested (handleInterruption m s) = closeRequested s"
  "transcript (handleInterruption m s) = transcript s"
  "currentInputRef (handleInterruption m s) = currentInputRef s"
  "currentOutputRef (handleInterruption m s) = currentOutputRef s"
  by (simp_all add: handleInterruption_def stopScheduledSources_def)

lemma handleAudio_frame:
  "outputAudioContextRef (handleAudio dec t m s) = outputAudioContextRef s"
  "connectionState (handleAudio dec t m s) = connectionState s"
  "sessionPromiseRef (handleAudio dec t m s) = sessionPromiseRef s"
  "closeRequested (handleAudio dec t m s) = closeRequested s"
  "transcript (handleAudio dec t m s) = transcript s"
  "currentInputRef (handleAudio dec t m s) = currentInputRef s"
  "currentOutputRef (handleAudio dec t m s) = currentOutputRef s"
  "stopped (handleAudio dec t m s) = stopped s"
  by (simp_all add: handleAudio_def scheduleChunk_def Let_def split: sum.splits option.splits)

lemmas onmessage_frames = handleTranscription_frame handleTurnComplete_frame
  handleInterruption_frame handleAudio_frame

lemma onmessage_interrupted:
  assumes "interrupted m"
  shows "scheduledSourcesRef (onmessage dec t dn m s) = {}"
    and "nextStartTimeRef (onmessage dec t dn m s) = 0"
    and "stopped (onmessage dec t dn m s) =
           stopped s \<union> scheduledSourcesRef (handleAudio dec t m s)"
  using assms
  by (simp_all add: onmessage_def onmessage_frames)
     (simp_all add: handleInterruption_def stopScheduledSources_def handleAudio_frame)

lemma scheduled_handleAudio: "scheduledSourcesRef s \<subseteq> scheduledSourcesRef (handleAudio dec t m s)"
  by (auto simp add: handleAudio_def scheduleChunk_def Let_def split: sum.splits option.splits)

lemma stopScheduledSources_cursor:
  "stopScheduledSources (s\<lparr>nextStartTimeRef := x\<rparr>) = stopScheduledSources s"
  by (simp add: stopScheduledSources_def)

lemma onmessage_started_ok:
  assumes "carries m p" "outputAudioContextRef s \<noteq> None"
    "dec p = Inr d"
  shows "started (onmessage dec t dn m s) =
           started s @ [(fresh s, max (nextStartTimeRef s) t, d)]"
  using assms by (simp add: onmessage_def onmessage_frames handleAudio_ok)

section \<open>Interruption\<close>

text \<open>
  C2. From every state, a message with the interrupted flag leaves the set of live units
  empty and the next-start cursor at 0, and \<open>stop()\<close> has been called on every unit
  that was in the set. If the next message carries a chunk that decodes, and the output
  clock reads \<open>t'\<close> (a clock reading, so not negative), the chunk is started at \<open>t'\<close>.
  The cursor from before the interruption plays no part in anything later: when the
  interrupting message carries no chunk of its own, the state after it is the same
  whatever the cursor was.
\<close>

theorem interruption_flushes:
  assumes "interrupted m"
  shows "scheduledSourcesRef (onmessage dec t dn m s) = {}
         \<and> nextStartTimeRef (onmessage dec t dn m s) = 0
         \<and> scheduledSourcesRef s \<subseteq> stopped (onmessage dec t dn m s)
         \<and> (carries m' p' \<and> outputAudioContextRef s \<noteq> None
              \<and> dec p' = Inr d \<and> 0 \<le> t' \<longrightarrow>
            started (onmessage dec t' dn' m' (onmessage dec t dn m s))
              = started (onmessage dec t dn m s) @ [(fresh (onmessage dec t dn m s), t', d)])
         \<and> ((\<forall>p. \<not> carries m p) \<longrightarrow>
              onmessage dec t dn m (s\<lparr>nextStartTimeRef := x\<rparr>) = onmessage dec t dn m s)"
proof -
  let ?s' = "onmessage dec t dn m s"
  have ctx: "outputAudioContextRef ?s' = outputAudioContextRef s"
    by (simp add: onmessage_def onmessage_frames)
  have a: "scheduledSourcesRef s \<subseteq> stopped ?s'"
    using scheduled_handleAudio [of s dec t m] by (auto simp add: onmessage_interrupted(3) [OF assms])
  have b: "started (onmessage dec t' dn' m' ?s') = started ?s' @ [(fresh ?s', t', d)]"
    if "carries m' p'" "outputAudioContextRef s \<noteq> None"
       "dec p' = Inr d" "0 \<le> t'"
    using that onmessage_started_ok [where m = m' and p = p' and s = ?s' and dec = dec and d = d
        and t = t' and dn = dn']
    by (simp add: ctx onmessage_interrupted(2) [OF assms])
  have c: "onmessage dec t dn m (s\<lparr>nextStartTimeRef := x\<rparr>) = onmessage dec t dn m s"
    if "\<forall>p. \<not> carries m p"
    using that assms
    by (simp add: onmessage_def handleAudio_skip handleInterruption_def stopScheduledSources_cursor)
  from a b c show ?thesis
    by (simp add: onmessage_interrupted [OF assms])
qed

theorem interruption_flushes_witness:
  "interrupted (chunk [] True)
   \<and> scheduledSourcesRef (deliver sampleDecode
        [(5, sampleDateNow, chunk ''AAAA'' False), (11 / 2, sampleDateNow, chunk ''BBBB'' False)] connectedHook) = {8, 9}
   \<and> nextStartTimeRef (deliver sampleDecode
        [(5, sampleDateNow, chunk ''AAAA'' False), (11 / 2, sampleDateNow, chunk ''BBBB'' False)] connectedHook) = 13 / 2
   \<and> scheduledSourcesRef (onmessage sampleDecode (23 / 4) sampleDateNow (chunk [] True)
        (deliver sampleDecode
          [(5, sampleDateNow, chunk ''AAAA'' False), (11 / 2, sampleDateNow, chunk ''BBBB'' False)] connectedHook)) = {}
   \<and> {8, 9} \<subseteq> stopped (onmessage sampleDecode (23 / 4) sampleDateNow (chunk [] True)
        (deliver sampleDecode
          [(5, sampleDateNow, chunk ''AAAA'' False), (11 / 2, sampleDateNow, chunk ''BBBB'' False)] connectedHook))
   \<and> started (onmessage sampleDecode (24 / 4) sampleDateNow (chunk ''AAAA'' False)
        (onmessage sampleDecode (23 / 4) sampleDateNow (chunk [] True)
          (deliver sampleDecode
            [(5, sampleDateNow, chunk ''AAAA'' False), (11 / 2, sampleDateNow, chunk ''BBBB'' False)] connectedHook)))
      = [(8, 5, 1), (9, 6, 1 / 2), (10, 6, 1)]"
proof -
  let ?s = "deliver sampleDecode
     [(5, sampleDateNow, chunk ''AAAA'' False), (11 / 2, sampleDateNow, chunk ''BBBB'' False)] connectedHook"
  let ?s' = "onmessage sampleDecode (23 / 4) sampleDateNow (chunk [] True) ?s"
  have i: "interrupted (chunk [] True)" "\<forall>p. \<not> carries (chunk [] True) p"
    by (simp_all add: chunk_def carries_def)
  have h: "outputAudioContextRef ?s \<noteq> None" "scheduledSourcesRef ?s = {8, 9}"
    "nextStartTimeRef ?s = 13 / 2"
    unfolding sample_run by (simp_all add: connectedHook_eq initialHook_def)
  have k: "started ?s' = [(8, 5, 1), (9, 6, 1 / 2)]" "fresh ?s' = 10"
    unfolding sample_run by (simp_all add: sample_defs)
  have m: "carries (chunk ''AAAA'' False) ''AAAA''" "sampleDecode ''AAAA'' = Inr 1"
    by (simp_all add: chunk_def carries_def sampleDecode_def)
  from interruption_flushes
      [where dec = sampleDecode and m = "chunk [] True" and s = ?s and t = "23 / 4" and dn = sampleDateNow
         and m' = "chunk ''AAAA'' False" and p' = "''AAAA''" and d = 1 and t' = "24 / 4"
         and dn' = sampleDateNow and x = 0, OF i(1)]
    i h k m
  show ?thesis by simp
qed

text \<open>
  C9. A message that carries both a chunk and the interrupted flag: the chunk is
  scheduled first (a \<open>start\<close> call is recorded for it), then the interruption stops it
  with the rest; the set is empty and the cursor is 0 when the handler returns.
\<close>

theorem chunk_with_interrupt_is_flushed:
  assumes "interrupted m" "carries m p" "outputAudioContextRef s \<noteq> None"
    "dec p = Inr d"
  shows "started (onmessage dec t dn m s) = started s @ [(fresh s, max (nextStartTimeRef s) t, d)]
         \<and> fresh s \<in> stopped (onmessage dec t dn m s)
         \<and> scheduledSourcesRef (onmessage dec t dn m s) = {}
         \<and> nextStartTimeRef (onmessage dec t dn m s) = 0"
  using assms
  by (simp add: onmessage_interrupted onmessage_started_ok) (simp add: handleAudio_ok)

theorem chunk_with_interrupt_is_flushed_witness:
  "interrupted (chunk ''AAAA'' True)
   \<and> started (onmessage sampleDecode 5 sampleDateNow (chunk ''AAAA'' True) connectedHook) = [(8, 5, 1)]
   \<and> 8 \<in> stopped (onmessage sampleDecode 5 sampleDateNow (chunk ''AAAA'' True) connectedHook)
   \<and> scheduledSourcesRef (onmessage sampleDecode 5 sampleDateNow (chunk ''AAAA'' True) connectedHook) = {}
   \<and> nextStartTimeRef (onmessage sampleDecode 5 sampleDateNow (chunk ''AAAA'' True) connectedHook) = 0"
proof -
  have h: "outputAudioContextRef connectedHook \<noteq> None" "started connectedHook = []"
    "fresh connectedHook = 8" "nextStartTimeRef connectedHook = 0"
    by (simp_all add: connectedHook_eq initialHook_def)
  have m: "interrupted (chunk ''AAAA'' True)"
    "carries (chunk ''AAAA'' True) ''AAAA''" "sampleDecode ''AAAA'' = Inr 1"
    by (simp_all add: chunk_def carries_def sampleDecode_def)
  from chunk_with_interrupt_is_flushed
      [where dec = sampleDecode and m = "chunk ''AAAA'' True" and p = "''AAAA''"
         and s = connectedHook and d = 1 and t = 5 and dn = sampleDateNow,
       OF m(1,2) h(1) m(3)] h m(1)
  show ?thesis by simp
qed

section \<open>Committing a turn\<close>

lemma accumulators_handleTranscription:
  "currentInputRef (handleTranscription m s) =
     (case inputTranscription m of None \<Rightarrow> currentInputRef s
      | Some v \<Rightarrow> appendText (currentInputRef s) v)"
  "currentOutputRef (handleTranscription m s) =
     (case outputTranscription m of None \<Rightarrow> currentOutputRef s
      | Some v \<Rightarrow> appendText (currentOutputRef s) v)"
  by (simp_all add: handleTranscription_def Let_def split: option.splits)

lemma accumulators_before_commit:
  "currentInputRef (handleTranscription m (handleInterruption m (handleAudio dec t m s)))
     = currentInputRef (handleTranscription m s)"
  "currentOutputRef (handleTranscription m (handleInterruption m (handleAudio dec t m s)))
     = currentOutputRef (handleTranscription m s)"
  "transcript (handleTranscription m (handleInterruption m (handleAudio dec t m s)))
     = transcript s"
  by (simp_all add: accumulators_handleTranscription onmessage_frames split: option.splits)

lemma handleTurnComplete_commit:
  assumes "turnComplete m"
  shows "currentInputRef (handleTurnComplete dn m s) = []"
    and "currentOutputRef (handleTurnComplete dn m s) = []"
    and "transcript (handleTurnComplete dn m s) =
           transcript s
           @ (if trim (currentInputRef s) \<noteq> []
              then [\<lparr>role = User, itemText = trim (currentInputRef s), timestamp = dn 0\<rparr>] else [])
           @ (if trim (currentOutputRef s) \<noteq> []
              then [\<lparr>role = Ai, itemText = trim (currentOutputRef s),
                     timestamp = dn (if trim (currentInputRef s) \<noteq> [] then 1 else 0)\<rparr>] else [])"
  using assms by (simp_all add: handleTurnComplete_def Let_def)

text \<open>
  C3. A message with \<open>turnComplete\<close>: let \<open>userText\<close> and \<open>aiText\<close> be the trimmed
  accumulators at that point (with the fragments of this very message appended). Both
  accumulators are empty afterwards in every case. With \<open>userText\<close> empty and \<open>aiText\<close>
  the word Hello, exactly one item, of role \<open>ai\<close> and text Hello, is appended; with
  both empty nothing is appended; with both non-empty the user item is appended before
  the \<open>ai\<close> item, the first with the first reading of \<open>Date.now()\<close> and the second with
  the next.
\<close>

theorem turn_complete_commit:
  assumes "turnComplete m"
    and "trim (currentInputRef (handleTranscription m s)) = userText"
    and "trim (currentOutputRef (handleTranscription m s)) = aiText"
  shows "currentInputRef (onmessage dec t dn m s) = []
         \<and> currentOutputRef (onmessage dec t dn m s) = []
         \<and> (userText = [] \<and> aiText = ''Hello'' \<longrightarrow>
              transcript (onmessage dec t dn m s)
                = transcript s @ [\<lparr>role = Ai, itemText = ''Hello'', timestamp = dn 0\<rparr>])
         \<and> (userText = [] \<and> aiText = [] \<longrightarrow>
              transcript (onmessage dec t dn m s) = transcript s)
         \<and> (userText \<noteq> [] \<and> aiText = [] \<longrightarrow>
              transcript (onmessage dec t dn m s)
                = transcript s @ [\<lparr>role = User, itemText = userText, timestamp = dn 0\<rparr>])
         \<and> (userText = [] \<and> aiText \<noteq> [] \<longrightarrow>
              transcript (onmessage dec t dn m s)
                = transcript s @ [\<lparr>role = Ai, itemText = aiText, timestamp = dn 0\<rparr>])
         \<and> (userText \<noteq> [] \<and> aiText \<noteq> [] \<longrightarrow>
              transcript (onmessage dec t dn m s)
                = transcript s @ [\<lparr>role = User, itemText = userText, timestamp = dn 0\<rparr>,
                                  \<lparr>role = Ai, itemText = aiText, timestamp = dn 1\<rparr>])"
  using assms
  by (simp add: onmessage_def handleTurnComplete_commit accumulators_before_commit)

theorem turn_complete_commit_witness:
  "turnComplete (turnEnd None (Some (Some ''lo '')))
   \<and> transcript (onmessage sampleDecode 5 sampleDateNow (turnEnd None (Some (Some ''lo '')))
        ((initialHook [])\<lparr>currentInputRef := ''  '', currentOutputRef := '' Hel''\<rparr>))
       = [\<lparr>role = Ai, itemText = ''Hello'', timestamp = sampleDateNow 0\<rparr>]
   \<and> currentInputRef (onmessage sampleDecode 5 sampleDateNow (turnEnd None (Some (Some ''lo '')))
        ((initialHook [])\<lparr>currentInputRef := ''  '', currentOutputRef := '' Hel''\<rparr>)) = []
   \<and> currentOutputRef (onmessage sampleDecode 5 sampleDateNow (turnEnd None (Some (Some ''lo '')))
        ((initialHook [])\<lparr>currentInputRef := ''  '', currentOutputRef := '' Hel''\<rparr>)) = []
   \<and> transcript (onmessage sampleDecode 5 sampleDateNow (turnEnd (Some (Some ''ked on X'')) None)
        ((initialHook [])\<lparr>currentInputRef := ''I wor'', currentOutputRef := ''Hi''\<rparr>))
       = [\<lparr>role = User, itemText = ''I worked on X'', timestamp = sampleDateNow 0\<rparr>,
          \<lparr>role = Ai, itemText = ''Hi'', timestamp = sampleDateNow 1\<rparr>]
   \<and> transcript (onmessage sampleDecode 5 sampleDateNow (turnEnd None None)
        ((initialHook [])\<lparr>currentInputRef := '' '', currentOutputRef := []\<rparr>)) = []"
  using turn_complete_commit
    [of "turnEnd None (Some (Some ''lo ''))"
        "(initialHook [])\<lparr>currentInputRef := ''  '', currentOutputRef := '' Hel''\<rparr>"
        "[]" "''Hello''" sampleDecode 5 sampleDateNow]
    turn_complete_commit
    [of "turnEnd (Some (Some ''ked on X'')) None"
        "(initialHook [])\<lparr>currentInputRef := ''I wor'', currentOutputRef := ''Hi''\<rparr>"
        "''I worked on X''" "''Hi''" sampleDecode 5 sampleDateNow]
    turn_complete_commit
    [of "turnEnd None None"
        "(initialHook [])\<lparr>currentInputRef := '' '', currentOutputRef := []\<rparr>"
        "[]" "[]" sampleDecode 5 sampleDateNow]
  by (simp add: turnEnd_def initialHook_def accumulators_handleTranscription appendText_def
      trim_def isWhiteSpace_def)

section \<open>A chunk that fails to decode\<close>

lemma without_chunk:
  "handleInterruption (m\<lparr>inlineData := None\<rparr>) = handleInterruption m"
  "handleTranscription (m\<lparr>inlineData := None\<rparr>) = handleTranscription m"
  "handleTurnComplete dn (m\<lparr>inlineData := None\<rparr>) = handleTurnComplete dn m"
  "handleAudio dec t (m\<lparr>inlineData := None\<rparr>) s = s"
  by (simp_all add: fun_eq_iff handleInterruption_def handleTranscription_def
      handleTurnComplete_def handleAudio_def)

lemma text_steps_cursor:
  "handleTurnComplete dn m (handleTranscription m (s\<lparr>nextStartTimeRef := x\<rparr>))
     = (handleTurnComplete dn m (handleTranscription m s))\<lparr>nextStartTimeRef := x\<rparr>"
  by (simp add: handleTurnComplete_def handleTranscription_def Let_def split: option.splits)

lemma onmessage_decode_failure:
  assumes "carries m p" "dec p = Inl e"
  shows "onmessage dec t dn m s =
           (if interrupted m \<or> outputAudioContextRef s = None
            then onmessage dec t dn (m\<lparr>inlineData := None\<rparr>) s
            else (onmessage dec t dn (m\<lparr>inlineData := None\<rparr>) s)
                   \<lparr>nextStartTimeRef := max (nextStartTimeRef s) t\<rparr>)"
proof (cases "outputAudioContextRef s = None")
  case True
  then show ?thesis
    by (simp add: onmessage_def without_chunk handleAudio_skip)
next
  case False
  with assms have a: "handleAudio dec t m s = s\<lparr>nextStartTimeRef := max (nextStartTimeRef s) t\<rparr>"
    by (simp add: handleAudio_fail)
  show ?thesis
  proof (cases "interrupted m")
    case True
    then show ?thesis
      by (simp add: onmessage_def without_chunk a handleInterruption_def stopScheduledSources_cursor)
  next
    case no: False
    with False show ?thesis
      by (auto simp add: onmessage_def without_chunk a handleInterruption_def text_steps_cursor)
  qed
qed

lemma handleAudio_cursor_behind:
  assumes "t \<le> t'" "carries m' p'" "outputAudioContextRef s \<noteq> None"
  shows "handleAudio dec t' m' (s\<lparr>nextStartTimeRef := max (nextStartTimeRef s) t\<rparr>)
           = handleAudio dec t' m' s"
proof -
  from assms(1) have "max (max (nextStartTimeRef s) t) t' = max (nextStartTimeRef s) t'"
    by (simp add: max_def)
  with assms(2,3) show ?thesis
    by (auto simp add: handleAudio_def carries_def Let_def scheduleChunk_def split: sum.splits)
qed

text \<open>
  C7. A message whose chunk fails to decode: the handler returns a state (the throw is
  caught inside it); connection state and session are as before, no \<open>start\<close> call is
  made, and the set of live units and the stopped units are what the same message
  without the chunk gives. The cursor may have moved up to the clock reading \<open>t\<close>, and
  yet any later message with a chunk, handled at a clock reading \<open>t'\<close> not before
  \<open>t\<close>, ends in the very state that it ends in when the failed chunk never arrived.
\<close>

theorem decode_failure_dropped:
  assumes "carries m p" "dec p = Inl e"
  shows "connectionState (onmessage dec t dn m s) = connectionState s
         \<and> sessionPromiseRef (onmessage dec t dn m s) = sessionPromiseRef s
         \<and> closeRequested (onmessage dec t dn m s) = closeRequested s
         \<and> started (onmessage dec t dn m s) = started s
         \<and> scheduledSourcesRef (onmessage dec t dn m s)
             = scheduledSourcesRef (onmessage dec t dn (m\<lparr>inlineData := None\<rparr>) s)
         \<and> stopped (onmessage dec t dn m s)
             = stopped (onmessage dec t dn (m\<lparr>inlineData := None\<rparr>) s)
         \<and> (t \<le> t' \<and> carries m' p' \<longrightarrow>
              onmessage dec t' dn' m' (onmessage dec t dn m s)
                = onmessage dec t' dn' m' (onmessage dec t dn (m\<lparr>inlineData := None\<rparr>) s))"
proof -
  let ?m0 = "m\<lparr>inlineData := None\<rparr>"
  let ?s0 = "onmessage dec t dn ?m0 s"
  note eq = onmessage_decode_failure [where dec = dec and m = m and t = t and dn = dn and s = s, OF assms]
  have frames: "connectionState ?s0 = connectionState s" "sessionPromiseRef ?s0 = sessionPromiseRef s"
    "closeRequested ?s0 = closeRequested s" "started ?s0 = started s"
    "outputAudioContextRef ?s0 = outputAudioContextRef s"
    by (simp_all add: onmessage_def without_chunk onmessage_frames)
  have cursor: "nextStartTimeRef ?s0 = nextStartTimeRef s" if "\<not> interrupted m"
    using that by (simp add: onmessage_def without_chunk onmessage_frames handleInterruption_def)
  have later: "onmessage dec t' dn' m' (onmessage dec t dn m s) = onmessage dec t' dn' m' ?s0"
    if "t \<le> t'" "carries m' p'"
  proof (cases "interrupted m \<or> outputAudioContextRef s = None")
    case True
    then show ?thesis by (simp add: eq)
  next
    case False
    then have "onmessage dec t dn m s = ?s0\<lparr>nextStartTimeRef := max (nextStartTimeRef ?s0) t\<rparr>"
      by (auto simp add: eq cursor)
    moreover have "handleAudio dec t' m' (?s0\<lparr>nextStartTimeRef := max (nextStartTimeRef ?s0) t\<rparr>)
        = handleAudio dec t' m' ?s0"
      using False that by (intro handleAudio_cursor_behind) (simp_all add: frames)
    ultimately show ?thesis
      by (simp add: onmessage_def [of dec t' dn' m'])
  qed
  from later show ?thesis
    by (simp add: eq frames)
qed

theorem decode_failure_dropped_witness:
  "carries (chunk ''zz'' False) ''zz''
   \<and> sampleDecode ''zz'' = Inl (JsError (Some ''malformed''))
   \<and> connectionState (onmessage sampleDecode 5 sampleDateNow (chunk ''zz'' False) connectedHook) = CONNECTED
   \<and> started (onmessage sampleDecode 5 sampleDateNow (chunk ''zz'' False) connectedHook) = []
   \<and> scheduledSourcesRef (onmessage sampleDecode 5 sampleDateNow (chunk ''zz'' False) connectedHook) = {}
   \<and> started (onmessage sampleDecode 6 sampleDateNow (chunk ''AAAA'' False)
        (onmessage sampleDecode 5 sampleDateNow (chunk ''zz'' False) connectedHook)) = [(8, 6, 1)]"
proof -
  have m: "carries (chunk ''zz'' False) ''zz''"
    "sampleDecode ''zz'' = Inl (JsError (Some ''malformed''))"
    "carries (chunk ''AAAA'' False) ''AAAA''"
    by (simp_all add: chunk_def carries_def sampleDecode_def)
  have h: "connectionState connectedHook = CONNECTED" "started connectedHook = []"
    "scheduledSourcesRef (onmessage sampleDecode 5 sampleDateNow ((chunk ''zz'' False)\<lparr>inlineData := None\<rparr>) connectedHook) = {}"
    "started (onmessage sampleDecode 6 sampleDateNow (chunk ''AAAA'' False)
        (onmessage sampleDecode 5 sampleDateNow ((chunk ''zz'' False)\<lparr>inlineData := None\<rparr>) connectedHook)) = [(8, 6, 1)]"
    by (simp_all add: sample_defs)
  from decode_failure_dropped
      [where dec = sampleDecode and m = "chunk ''zz'' False" and p = "''zz''"
         and s = connectedHook and t = 5 and dn = sampleDateNow and t' = 6
         and m' = "chunk ''AAAA'' False" and p' = "''AAAA''" and dn' = sampleDateNow,
       OF m(1,2)] m h
  show ?thesis by simp
qed

section \<open>The playback timeline\<close>

lemma noOverlapRounded_snoc:
  "noOverlapRounded us \<Longrightarrow> (\<forall>(n, t, d) \<in> set us. t \<le> t' \<and> numberAdd t d \<le> t') \<Longrightarrow>
   noOverlapRounded (us @ [(n', t', d')])"
  by (induction us rule: noOverlapRounded.induct) auto

lemma onmessage_one_step:
  assumes nonneg: "\<forall>p d. dec p = Inr d \<longrightarrow> 0 \<le> d" and ni: "\<not> interrupted m"
    and t: "isDouble t" "0 \<le> t"
    and c: "isDouble (nextStartTimeRef s)" "0 \<le> nextStartTimeRef s"
  shows "isDouble (nextStartTimeRef (onmessage dec t dn m s))
         \<and> 0 \<le> nextStartTimeRef (onmessage dec t dn m s)
         \<and> nextStartTimeRef s \<le> nextStartTimeRef (onmessage dec t dn m s)
         \<and> (started (onmessage dec t dn m s) = started s
             \<or> (\<exists>n t' d. started (onmessage dec t dn m s) = started s @ [(n, t', d)]
                   \<and> nextStartTimeRef s \<le> t'
                   \<and> t' \<le> nextStartTimeRef (onmessage dec t dn m s)
                   \<and> numberAdd t' d = nextStartTimeRef (onmessage dec t dn m s)))"
proof -
  have eq: "started (onmessage dec t dn m s) = started (handleAudio dec t m s)"
    "nextStartTimeRef (onmessage dec t dn m s) = nextStartTimeRef (handleAudio dec t m s)"
    using ni by (simp_all add: onmessage_def onmessage_frames handleInterruption_def)
  let ?t' = "max (nextStartTimeRef s) t"
  have t': "isDouble ?t'" "0 \<le> ?t'" "nextStartTimeRef s \<le> ?t'"
    using t c by (simp_all add: isDouble_max)
  show ?thesis
  proof (cases "(\<forall>p. \<not> carries m p) \<or> outputAudioContextRef s = None")
    case True
    then show ?thesis using c by (simp add: eq handleAudio_skip)
  next
    case False
    then obtain p where p: "carries m p" and ctx: "outputAudioContextRef s \<noteq> None"
      by blast
    show ?thesis
    proof (cases "dec p")
      case (Inl e)
      with p ctx t' show ?thesis by (simp add: eq handleAudio_fail)
    next
      case (Inr d)
      with nonneg have d: "0 \<le> d" by blast
      from t'(2) d have sum: "0 \<le> ?t' + d" by simp
      have ge: "?t' \<le> numberAdd ?t' d" using t'(1,2) d by (rule numberAdd_ge)
      from t'(3) ge have "nextStartTimeRef s \<le> numberAdd ?t' d" by (rule order_trans)
      with p ctx Inr sum ge t'(3) show ?thesis
        by (simp add: eq handleAudio_ok isDouble_numberAdd numberAdd_nonneg)
    qed
  qed
qed

lemma deliver_timeline:
  assumes nonneg: "\<forall>p d. dec p = Inr d \<longrightarrow> 0 \<le> d"
  shows "\<forall>(t, dn, m) \<in> set ms. \<not> interrupted m \<and> isDouble t \<and> 0 \<le> t \<Longrightarrow>
         isDouble (nextStartTimeRef s) \<Longrightarrow> 0 \<le> nextStartTimeRef s \<Longrightarrow>
         started s = pre @ us \<Longrightarrow> noOverlapRounded us \<Longrightarrow>
         \<forall>(n, t, d) \<in> set us. t \<le> nextStartTimeRef s \<and> numberAdd t d \<le> nextStartTimeRef s \<Longrightarrow>
         \<exists>us'. started (deliver dec ms s) = pre @ us' \<and> noOverlapRounded us'"
proof (induction ms arbitrary: s us)
  case Nil
  then show ?case by simp
next
  case (Cons ev ms)
  obtain t dn m where ev: "ev = (t, dn, m)" by (cases ev)
  let ?s' = "onmessage dec t dn m s"
  from Cons.prems(1) ev have ni: "\<not> interrupted m" and t: "isDouble t" "0 \<le> t"
    and rest: "\<forall>(t, dn, m) \<in> set ms. \<not> interrupted m \<and> isDouble t \<and> 0 \<le> t"
    by simp_all
  from onmessage_one_step [OF nonneg ni t Cons.prems(2,3), of dn]
  have c': "isDouble (nextStartTimeRef ?s')" "0 \<le> nextStartTimeRef ?s'"
    and up: "nextStartTimeRef s \<le> nextStartTimeRef ?s'"
    and step: "started ?s' = started s
      \<or> (\<exists>n t' d. started ?s' = started s @ [(n, t', d)] \<and> nextStartTimeRef s \<le> t'
            \<and> t' \<le> nextStartTimeRef ?s' \<and> numberAdd t' d = nextStartTimeRef ?s')"
    by simp_all
  from step have "\<exists>us'. started (deliver dec ms ?s') = pre @ us' \<and> noOverlapRounded us'"
  proof
    assume same: "started ?s' = started s"
    have "\<forall>(n, t, d) \<in> set us. t \<le> nextStartTimeRef ?s' \<and> numberAdd t d \<le> nextStartTimeRef ?s'"
      using Cons.prems(6) up by fastforce
    with Cons.IH [OF rest c', of us] same Cons.prems(4,5) show ?thesis by simp
  next
    assume "\<exists>n t' d. started ?s' = started s @ [(n, t', d)] \<and> nextStartTimeRef s \<le> t'
            \<and> t' \<le> nextStartTimeRef ?s' \<and> numberAdd t' d = nextStartTimeRef ?s'"
    then obtain n t' d where more: "started ?s' = started s @ [(n, t', d)]"
      "nextStartTimeRef s \<le> t'" "t' \<le> nextStartTimeRef ?s'"
      "numberAdd t' d = nextStartTimeRef ?s'"
      by blast
    have a: "started ?s' = pre @ (us @ [(n, t', d)])"
      using more(1) Cons.prems(4) by simp
    have b: "noOverlapRounded (us @ [(n, t', d)])"
      using Cons.prems(5,6) more(2) by (intro noOverlapRounded_snoc) fastforce+
    have c: "\<forall>(n, t, d) \<in> set (us @ [(n, t', d)]).
               t \<le> nextStartTimeRef ?s' \<and> numberAdd t d \<le> nextStartTimeRef ?s'"
      using Cons.prems(6) up more(3,4) by fastforce
    from Cons.IH [OF rest c' a b c] show ?thesis .
  qed
  with ev show ?case by simp
qed

lemma two_chunks:
  assumes "outputAudioContextRef s \<noteq> None"
    and "carries m1 p1" "dec p1 = Inr d1"
    and "\<not> interrupted m1"
    and "carries m2 p2" "dec p2 = Inr d2"
    and "t2 \<le> numberAdd (max (nextStartTimeRef s) t1) d1"
  shows "started (deliver dec [(t1, dn1, m1), (t2, dn2, m2)] s) =
           started s @ [(fresh s, max (nextStartTimeRef s) t1, d1),
                        (fresh s + 1, numberAdd (max (nextStartTimeRef s) t1) d1, d2)]"
proof -
  let ?s1 = "onmessage dec t1 dn1 m1 s"
  have s1: "started ?s1 = started s @ [(fresh s, max (nextStartTimeRef s) t1, d1)]"
    using assms(1,2,3) by (simp add: onmessage_started_ok)
  have f1: "fresh ?s1 = fresh s + 1"
    "nextStartTimeRef ?s1 = numberAdd (max (nextStartTimeRef s) t1) d1"
    "outputAudioContextRef ?s1 \<noteq> None"
    using assms(1-4)
    by (simp_all add: onmessage_def onmessage_frames handleInterruption_def handleAudio_ok)
  have "started (onmessage dec t2 dn2 m2 ?s1) =
          started ?s1 @ [(fresh ?s1, max (nextStartTimeRef ?s1) t2, d2)]"
    using assms(5,6) f1(3) by (simp add: onmessage_started_ok)
  with s1 f1 assms(7) show ?thesis by (simp add: max_def)
qed

text \<open>
  C1, as stated, fails: the cursor is advanced by a rounded sum. With the output clock
  at 256/24000 s (two render quanta at 24 kHz) and two chunks of 1.0 s and 0.5 s arriving
  back to back, the second unit is started at 4551638023395781 / 2^52, which is less
  than the first start plus 1.0: not exactly 1.0 s later, and before the first unit's
  end.
\<close>

theorem start_times_no_overlap_counterexample:
  "started (deliver sampleDecode
      [(roundDouble (256 / 24000), sampleDateNow, chunk ''AAAA'' False),
       (roundDouble (256 / 24000), sampleDateNow, chunk ''BBBB'' False)] connectedHook)
     = [(8, roundDouble (256 / 24000), 1), (9, 4551638023395781 / 2 ^ 52, 1 / 2)]
   \<and> 4551638023395781 / 2 ^ 52 < roundDouble (256 / 24000) + 1
   \<and> \<not> noOverlap (drop (length (started connectedHook))
        (started (deliver sampleDecode
          [(roundDouble (256 / 24000), sampleDateNow, chunk ''AAAA'' False),
           (roundDouble (256 / 24000), sampleDateNow, chunk ''BBBB'' False)] connectedHook)))"
proof -
  have clock: "0 \<le> roundDouble (256 / 24000)"
    by (simp add: roundDouble_nonneg)
  have sum: "numberAdd (roundDouble (256 / 24000)) 1 = 4551638023395781 / 2 ^ 52"
    by code_simp
  have early: "4551638023395781 / 2 ^ 52 < roundDouble (256 / 24000) + 1"
    by code_simp
  from clock have mx: "max 0 (roundDouble (256 / 24000)) = roundDouble (256 / 24000)"
    by (rule max_absorb2)
  from early have mx': "max (4551638023395781 / 2 ^ 52) (roundDouble (256 / 24000))
      = 4551638023395781 / 2 ^ 52"
    using sum clock numberAdd_ge [of "roundDouble (256 / 24000)" 1]
    by (simp add: isDouble_def roundDouble_idem_nonneg)
  show ?thesis
    using clock sum early mx mx' by (simp add: sample_defs)
qed

text \<open>
  C1, amended. Buffer durations are not negative; clock readings and the cursor are
  doubles and not negative. Over any run of messages none of which carries the
  interrupted flag, each unit started during the run starts no earlier than the one
  before it, and no earlier than the cursor that unit left: its start plus its duration,
  rounded to a double, which differs from the exact sum by at most the fraction 2^-53 of
  it. For two messages with chunks of durations \<open>d1\<close> and \<open>d2\<close>, the second arriving
  no later than that cursor, the second unit starts at exactly that rounded sum; where
  the exact sum is a double, as for a first start at 5 s and a chunk of 1.0 s, that is
  exactly \<open>d1\<close> after the first start.
\<close>

theorem start_times_no_overlap:
  "((\<forall>p d. dec p = Inr d \<longrightarrow> 0 \<le> d)
      \<and> (\<forall>(t, dn, m) \<in> set ms. \<not> interrupted m \<and> isDouble t \<and> 0 \<le> t)
      \<and> isDouble (nextStartTimeRef s) \<and> 0 \<le> nextStartTimeRef s \<longrightarrow>
      noOverlapRounded (drop (length (started s)) (started (deliver dec ms s))))
   \<and> (0 < x + d \<longrightarrow> \<bar>numberAdd x d - (x + d)\<bar> \<le> (x + d) / 2 ^ 53)
   \<and> (outputAudioContextRef s \<noteq> None
        \<and> carries m1 p1 \<and> dec p1 = Inr d1
        \<and> \<not> interrupted m1
        \<and> carries m2 p2 \<and> dec p2 = Inr d2
        \<and> t2 \<le> numberAdd (max (nextStartTimeRef s) t1) d1 \<longrightarrow>
      started (deliver dec [(t1, dn1, m1), (t2, dn2, m2)] s) =
        started s @ [(fresh s, max (nextStartTimeRef s) t1, d1),
                     (fresh s + 1, numberAdd (max (nextStartTimeRef s) t1) d1, d2)])
   \<and> (isDouble (x + d) \<longrightarrow> numberAdd x d = x + d)"
proof -
  have a: "noOverlapRounded (drop (length (started s)) (started (deliver dec ms s)))"
    if nonneg: "\<forall>p d. dec p = Inr d \<longrightarrow> 0 \<le> d"
      and run: "\<forall>(t, dn, m) \<in> set ms. \<not> interrupted m \<and> isDouble t \<and> 0 \<le> t"
      and c: "isDouble (nextStartTimeRef s)" "0 \<le> nextStartTimeRef s"
  proof -
    from deliver_timeline [OF nonneg run c, of "started s" "[]"]
    obtain us' where "started (deliver dec ms s) = started s @ us'" "noOverlapRounded us'"
      by auto
    then show ?thesis by simp
  qed
  have b: "\<bar>numberAdd x d - (x + d)\<bar> \<le> (x + d) / 2 ^ 53" if "0 < x + d"
    using that unfolding numberAdd_def by (rule roundDouble_near)
  from a b two_chunks [where s = s and dec = dec and ?m1.0 = m1 and ?p1.0 = p1 and ?d1.0 = d1
      and ?m2.0 = m2 and ?p2.0 = p2 and ?d2.0 = d2 and ?t1.0 = t1 and ?t2.0 = t2
      and ?dn1.0 = dn1 and ?dn2.0 = dn2]
    numberAdd_exact [of x d]
  show ?thesis by blast
qed

theorem start_times_no_overlap_witness:
  "isDouble 5 \<and> isDouble (11 / 2) \<and> isDouble (5 + 1)
   \<and> isDouble (nextStartTimeRef connectedHook)
   \<and> noOverlapRounded (drop (length (started connectedHook))
        (started (deliver sampleDecode
           [(5, sampleDateNow, chunk ''AAAA'' False),
            (11 / 2, sampleDateNow, chunk ''BBBB'' False)] connectedHook)))
   \<and> started (deliver sampleDecode
        [(5, sampleDateNow, chunk ''AAAA'' False),
         (11 / 2, sampleDateNow, chunk ''BBBB'' False)] connectedHook)
      = [(8, 5, 1), (9, 5 + 1, 1 / 2)]
   \<and> \<bar>numberAdd 5 1 - (5 + 1)\<bar> \<le> (5 + 1) / 2 ^ 53"
proof -
  have h: "outputAudioContextRef connectedHook \<noteq> None" "started connectedHook = []"
    "fresh connectedHook = 8" "nextStartTimeRef connectedHook = 0"
    by (simp_all add: connectedHook_eq initialHook_def)
  have m: "carries (chunk ''AAAA'' False) ''AAAA''"
    "carries (chunk ''BBBB'' False) ''BBBB''"
    "\<not> interrupted (chunk ''AAAA'' False)" "\<not> interrupted (chunk ''BBBB'' False)"
    "sampleDecode ''AAAA'' = Inr 1" "sampleDecode ''BBBB'' = Inr (1 / 2)"
    by (simp_all add: chunk_def carries_def sampleDecode_def)
  have d: "isDouble 5" "isDouble (11 / 2)" "isDouble 6" "isDouble 0"
    unfolding isDouble_def by code_simp+
  from start_times_no_overlap
      [where dec = sampleDecode and s = connectedHook
         and ms = "[(5, sampleDateNow, chunk ''AAAA'' False),
                    (11 / 2, sampleDateNow, chunk ''BBBB'' False)]"
         and ?m1.0 = "chunk ''AAAA'' False" and ?p1.0 = "''AAAA''" and ?d1.0 = 1
         and ?m2.0 = "chunk ''BBBB'' False" and ?p2.0 = "''BBBB''" and ?d2.0 = "1 / 2"
         and ?t1.0 = 5 and ?t2.0 = "11 / 2" and ?dn1.0 = sampleDateNow and ?dn2.0 = sampleDateNow
         and x = 5 and d = 1]
    sampleDecode_nonneg h m d
  show ?thesis by (simp add: sample_sums)
qed

section \<open>The guard of connect\<close>




section \<open>A connect that fails\<close>






end
